theory Spec2Isabelle
  imports Complex_Main "HOL-Library.AList" "HOL-Library.Char_ord" "HOL-Library.List_Lexorder"
    "HOL-Library.Product_Lexorder"
begin

section \<open>Python values used by the leaderboard service\<close>

text \<open>
  Primary keys of games and users are positive integers assigned by the database; they are
  modelled as \<open>nat\<close>. Python's \<open>str(n)\<close> of such a key is its decimal numeral without
  leading zeros.

  Scores are \<open>Decimal\<close> values with two decimal places in the database and \<open>float\<close> values
  inside the service (\<open>float(self.score)\<close>). The service only negates, compares and takes
  \<open>max\<close>/\<open>min\<close> of them; it never adds or multiplies two scores. All of these operations
  are exact on IEEE doubles, and every decimal with at most twelve significant digits is
  read back unchanged from its nearest double, so scores are modelled as exact rationals.
\<close>

definition digit_char :: "nat \<Rightarrow> char" where
  "digit_char d = ''0123456789'' ! d"

fun str :: "nat \<Rightarrow> string" where
  "str n = (if n < 10 then [digit_char n] else str (n div 10) @ [digit_char (n mod 10)])"

declare str.simps [simp del]

section \<open>Data model\<close>

text \<open>\<open>games/models.py\<close>: of a \<open>Game\<close> the service reads \<open>score_type\<close>, the submission
  serializer reads \<open>is_active\<close>.\<close>

record Game =
  score_type :: string
  is_active :: bool

text \<open>The user model: leaderboard rows show \<open>email\<close> and \<open>name\<close>.\<close>

record User =
  email :: string
  name :: string

text \<open>\<open>scores/models.py\<close>: a row of the \<open>Score\<close> table, with its two foreign keys and the
  submitted value (\<open>submitted_at\<close> is the position of the row in the table, see \<open>scores\<close>
  below; \<open>metadata\<close> is opaque and never read).\<close>

record Score =
  user :: nat
  game :: nat
  score :: rat

subsection \<open>Redis sorted sets\<close>

text \<open>
  The store behind \<open>redis_client\<close>, with the commands the service issues, as the Redis
  command reference describes them. A sorted set holds each member once, with one score;
  it is kept here as the list of its (member, score) pairs, and the rank order is computed
  when the set is read. The only writer is \<open>update_user_score\<close>, whose members are
  \<open>str(user_id)\<close>; a member is therefore kept as the user id itself (so
  \<open>int(user_id.decode())\<close> is the identity) and ordered by its decimal string, as Redis
  orders equal-score members by their bytes. A key that was never written, or was deleted,
  reads as the empty set.
\<close>

type_synonym zset = "(nat \<times> rat) list"

text \<open>\<open>ZADD key score member\<close>: add the member, or overwrite its score.\<close>

definition zadd :: "nat \<Rightarrow> rat \<Rightarrow> zset \<Rightarrow> zset" where
  "zadd member s zs = AList.update member s zs"

text \<open>Ascending rank order: by score, then by member bytes.\<close>

definition zorder :: "zset \<Rightarrow> (nat \<times> rat) list" where
  "zorder zs = sort_key (\<lambda>(member, s). (s, str member)) zs"

text \<open>What the service can raise: \<open>TypeError\<close> from negating \<open>None\<close>, and the
  \<open>ResponseError\<close> of the Redis client when the server rejects a command.\<close>

datatype error = TypeError | ResponseError

text \<open>The index arguments of a range command must be signed 64-bit integers; the server
  answers any other with the error "value is not an integer or out of range".\<close>

definition is_long :: "int \<Rightarrow> bool" where
  "is_long i \<longleftrightarrow> - (2 ^ 63) \<le> i \<and> i < 2 ^ 63"

text \<open>\<open>ZREVRANGE key start stop WITHSCORES\<close>: the slice of the descending order between two
  inclusive 0-based indexes; a negative index counts from the end of the set. The indexes
  are parsed, and rejected when out of range, before the key is looked up.\<close>

definition zrevrange :: "zset \<Rightarrow> int \<Rightarrow> int \<Rightarrow> error + (nat \<times> rat) list" where
  "zrevrange zs start end =
     (if \<not> is_long start \<or> \<not> is_long end then Inl ResponseError
      else
        let llen = int (length zs);
            start1 = (if start < 0 then llen + start else start);
            end1 = (if end < 0 then llen + end else end);
            start2 = (if start1 < 0 then 0 else start1)
        in if start2 > end1 \<or> start2 \<ge> llen then Inr []
           else let end2 = (if end1 \<ge> llen then llen - 1 else end1)
                in Inr (take (nat (end2 - start2 + 1)) (drop (nat start2) (rev (zorder zs)))))"

fun index_of :: "nat \<Rightarrow> (nat \<times> rat) list \<Rightarrow> nat option" where
  "index_of member [] = None"
| "index_of member ((m, s) # zs) =
     (if m = member then Some 0 else map_option Suc (index_of member zs))"

text \<open>\<open>ZREVRANK key member\<close>: the 0-based position in the descending order, if any.\<close>

definition zrevrank :: "zset \<Rightarrow> nat \<Rightarrow> nat option" where
  "zrevrank zs member = index_of member (rev (zorder zs))"

text \<open>\<open>ZSCORE key member\<close> and \<open>ZCARD key\<close>.\<close>

definition zscore :: "zset \<Rightarrow> nat \<Rightarrow> rat option" where
  "zscore zs member = map_of zs member"

definition zcard :: "zset \<Rightarrow> nat" where
  "zcard zs = length zs"

subsection \<open>The state: database tables and the Redis keyspace\<close>

text \<open>\<open>scores\<close> lists the \<open>Score\<close> table newest row first, the model's default ordering
  (\<open>ordering = ["-submitted_at"]\<close>).\<close>

record state =
  games :: "nat \<rightharpoonup> Game"
  users :: "nat \<rightharpoonup> User"
  scores :: "Score list"
  redis :: "string \<Rightarrow> zset"

section \<open>\<open>scores/services.py\<close>: \<open>LeaderboardService\<close>\<close>

definition get_leaderboard_key :: "nat \<Rightarrow> string" where
  "get_leaderboard_key game_id = ''leaderboard:'' @ str game_id"

definition get_global_leaderboard_key :: string where
  "get_global_leaderboard_key = ''leaderboard:global''"

definition convert_score_for_redis :: "rat \<Rightarrow> string \<Rightarrow> rat" where
  "convert_score_for_redis sc game_score_type =
     (if game_score_type = ''highest'' then - sc else sc)"

definition convert_score_from_redis :: "rat \<Rightarrow> string \<Rightarrow> rat" where
  "convert_score_from_redis redis_score game_score_type =
     (if game_score_type = ''highest'' then - redis_score else redis_score)"

definition update_user_score :: "state \<Rightarrow> nat \<Rightarrow> nat \<Rightarrow> rat \<Rightarrow> string \<Rightarrow> state" where
  "update_user_score st game_id user_id sc game_score_type =
     (let game_key = get_leaderboard_key game_id;
          global_key = get_global_leaderboard_key;
          redis_score = convert_score_for_redis sc game_score_type;
          r1 = (redis st)(game_key := zadd user_id redis_score (redis st game_key));
          r2 = r1(global_key := zadd user_id sc (r1 global_key))
      in st\<lparr>redis := r2\<rparr>)"

text \<open>A row of a per-game page, and of a global page (the dictionaries the service builds).\<close>

record leaderboard_row =
  rank :: int
  user_id :: nat
  username :: string
  name :: string
  score :: rat

record global_row =
  rank :: int
  user_id :: nat
  username :: string
  name :: string
  total_score :: rat

text \<open>The loop \<open>for rank, (user_id, redis_score) in enumerate(ranked_users, start=start + 1)\<close>
  of \<open>get_leaderboard\<close>: the counter advances for every ranked member, a row is appended
  only when the member resolves to a user.\<close>

fun build_leaderboard ::
  "(nat \<rightharpoonup> User) \<Rightarrow> string \<Rightarrow> int \<Rightarrow> (nat \<times> rat) list \<Rightarrow> leaderboard_row list" where
  "build_leaderboard user_dict t rk [] = []"
| "build_leaderboard user_dict t rk ((uid, redis_score) # rest) =
     (case user_dict uid of
        Some u \<Rightarrow>
          \<lparr>leaderboard_row.rank = rk, user_id = uid, username = email u,
           name = (if User.name u \<noteq> [] then User.name u else email u),
           score = convert_score_from_redis redis_score t\<rparr>
          # build_leaderboard user_dict t (rk + 1) rest
      | None \<Rightarrow> build_leaderboard user_dict t (rk + 1) rest)"

text \<open>\<open>get_leaderboard\<close> returns a page, or raises what \<open>zrevrange\<close> raises (the indexes
  are passed to Redis as they come).\<close>

definition get_leaderboard ::
  "state \<Rightarrow> nat \<Rightarrow> int \<Rightarrow> int \<Rightarrow> error + leaderboard_row list" where
  "get_leaderboard st game_id start end =
     (case games st game_id of
        None \<Rightarrow> Inr []
      | Some g \<Rightarrow>
          let game_key = get_leaderboard_key game_id
          in (case zrevrange (redis st game_key) start end of
                Inl e \<Rightarrow> Inl e
              | Inr ranked_users \<Rightarrow>
                  if ranked_users = [] then Inr []
                  else let user_ids = map fst ranked_users;
                           user_dict = users st |` set user_ids
                       in Inr (build_leaderboard user_dict (score_type g) (start + 1)
                                 ranked_users)))"

fun build_global_leaderboard ::
  "(nat \<rightharpoonup> User) \<Rightarrow> int \<Rightarrow> (nat \<times> rat) list \<Rightarrow> global_row list" where
  "build_global_leaderboard user_dict rk [] = []"
| "build_global_leaderboard user_dict rk ((uid, tot) # rest) =
     (case user_dict uid of
        Some u \<Rightarrow>
          \<lparr>global_row.rank = rk, user_id = uid, username = email u,
           name = (if User.name u \<noteq> [] then User.name u else email u),
           total_score = tot\<rparr>
          # build_global_leaderboard user_dict (rk + 1) rest
      | None \<Rightarrow> build_global_leaderboard user_dict (rk + 1) rest)"

definition get_global_leaderboard :: "state \<Rightarrow> int \<Rightarrow> int \<Rightarrow> error + global_row list" where
  "get_global_leaderboard st start end =
     (let global_key = get_global_leaderboard_key
      in case zrevrange (redis st global_key) start end of
           Inl e \<Rightarrow> Inl e
         | Inr ranked_users \<Rightarrow>
             if ranked_users = [] then Inr []
             else let user_ids = map fst ranked_users;
                      user_dict = users st |` set user_ids
                  in Inr (build_global_leaderboard user_dict (start + 1) ranked_users))"

text \<open>\<open>get_user_rank\<close>. \<open>zscore\<close> may answer \<open>None\<close>; then \<open>-redis_score\<close> raises
  \<open>TypeError\<close> for a \<open>highest\<close> game, and \<open>None\<close> is passed through as the score
  otherwise. The call of \<open>get_leaderboard\<close> for the surrounding players may raise too.\<close>

record rank_info =
  user_rank :: nat
  user_score :: "rat option"
  surrounding_players :: "leaderboard_row list"
  total_players :: nat

definition get_user_rank :: "state \<Rightarrow> nat \<Rightarrow> nat \<Rightarrow> error + rank_info option" where
  "get_user_rank st game_id uid =
     (case games st game_id of
        None \<Rightarrow> Inr None
      | Some g \<Rightarrow>
          let game_key = get_leaderboard_key game_id
          in (case zrevrank (redis st game_key) uid of
                None \<Rightarrow> Inr None
              | Some rk \<Rightarrow>
                  (case (case zscore (redis st game_key) uid of
                           Some redis_score \<Rightarrow>
                             Inr (Some (convert_score_from_redis redis_score (score_type g)))
                         | None \<Rightarrow>
                             if score_type g = ''highest'' then Inl TypeError else Inr None) of
                     Inl e \<Rightarrow> Inl e
                   | Inr actual_score \<Rightarrow>
                       let start_rank = max 0 (int rk - 5);
                           end_rank = int rk + 5
                       in (case get_leaderboard st game_id start_rank end_rank of
                             Inl e \<Rightarrow> Inl e
                           | Inr surrounding \<Rightarrow>
                               Inr (Some \<lparr>user_rank = rk + 1, user_score = actual_score,
                                           surrounding_players = surrounding,
                                           total_players = zcard (redis st game_key)\<rparr>)))))"

record global_rank_info =
  user_rank :: nat
  total_score :: "rat option"
  total_players :: nat

definition get_user_global_rank :: "state \<Rightarrow> nat \<Rightarrow> global_rank_info option" where
  "get_user_global_rank st uid =
     (let global_key = get_global_leaderboard_key
      in case zrevrank (redis st global_key) uid of
           None \<Rightarrow> None
         | Some rk \<Rightarrow>
             Some \<lparr>global_rank_info.user_rank = rk + 1,
                   total_score = zscore (redis st global_key) uid,
                   total_players = zcard (redis st global_key)\<rparr>)"

text \<open>\<open>DEL key\<close>.\<close>

definition clear_leaderboard :: "state \<Rightarrow> nat \<Rightarrow> state" where
  "clear_leaderboard st game_id = st\<lparr>redis := (redis st)(get_leaderboard_key game_id := [])\<rparr>"

definition clear_global_leaderboard :: "state \<Rightarrow> state" where
  "clear_global_leaderboard st = st\<lparr>redis := (redis st)(get_global_leaderboard_key := [])\<rparr>"

text \<open>The first loop of \<open>rebuild_leaderboard\<close>: one step per score row, on the dictionary
  \<open>user_scores\<close> (a Python dictionary keeps its keys in the order of first insertion).\<close>

definition keep_best :: "string \<Rightarrow> Score \<Rightarrow> (nat \<times> rat) list \<Rightarrow> (nat \<times> rat) list" where
  "keep_best t row user_scores =
     (let uid = user row; current_score = Score.score row
      in case map_of user_scores uid of
           None \<Rightarrow> AList.update uid current_score user_scores
         | Some old \<Rightarrow>
             if t = ''highest'' then AList.update uid (max old current_score) user_scores
             else AList.update uid (min old current_score) user_scores)"

definition rebuild_leaderboard :: "state \<Rightarrow> nat \<Rightarrow> state" where
  "rebuild_leaderboard st game_id =
     (case games st game_id of
        None \<Rightarrow> st
      | Some g \<Rightarrow>
          let st1 = clear_leaderboard st game_id;
              rows = filter (\<lambda>row. game row = game_id) (scores st);
              user_scores = fold (keep_best (score_type g)) rows []
          in fold (\<lambda>(uid, sc) s. update_user_score s game_id uid sc (score_type g))
               user_scores st1)"

section \<open>\<open>scores/models.py\<close>: \<open>Score\<close>\<close>

text \<open>\<open>Score.save\<close> of a new row (\<open>is_new\<close>): the row is inserted, then
  \<open>update_redis_leaderboard\<close> pushes it to Redis. The second argument of both is
  \<open>self.game\<close>, the \<open>Game\<close> object attached to the row.\<close>

definition update_redis_leaderboard :: "state \<Rightarrow> Score \<Rightarrow> Game \<Rightarrow> state" where
  "update_redis_leaderboard st self g =
     update_user_score st (game self) (user self) (Score.score self) (score_type g)"

definition save :: "state \<Rightarrow> Score \<Rightarrow> Game \<Rightarrow> state" where
  "save st self g = update_redis_leaderboard (st\<lparr>scores := self # scores st\<rparr>) self g"

text \<open>\<open>QuerySet.first()\<close>.\<close>

definition first :: "'a list \<Rightarrow> 'a option" where
  "first xs = (case xs of [] \<Rightarrow> None | x # _ \<Rightarrow> Some x)"

definition get_user_best_score :: "state \<Rightarrow> nat \<Rightarrow> nat \<Rightarrow> Game \<Rightarrow> Score option" where
  "get_user_best_score st uid game_id g =
     (let rows = filter (\<lambda>row. user row = uid \<and> game row = game_id) (scores st)
      in if score_type g = ''highest''
         then first (sort_key (\<lambda>row. - Score.score row) rows)
         else first (sort_key Score.score rows))"

section \<open>\<open>scores/api/views.py\<close>: \<open>ScoreSubmissionView.post\<close>\<close>

text \<open>\<open>ScoreSubmissionSerializer.is_valid\<close>: the game exists and is active; the score is a
  decimal of at most 12 digits, 2 of them after the point, and not below 0.\<close>

definition is_valid :: "state \<Rightarrow> nat \<Rightarrow> rat \<Rightarrow> bool" where
  "is_valid st game_id v \<longleftrightarrow>
     (case games st game_id of None \<Rightarrow> False | Some g \<Rightarrow> is_active g)
     \<and> 0 \<le> v \<and> v < 10 ^ 10 \<and> rat_of_int \<lfloor>v * 100\<rfloor> = v * 100"

record response_data =
  message :: string
  score :: rat
  is_personal_best :: bool
  rank :: "nat option"
  total_players :: "nat option"

datatype response = HTTP_400_BAD_REQUEST | HTTP_404_NOT_FOUND | HTTP_201_CREATED response_data

text \<open>The view, for the authenticated user \<open>request_user\<close>. It answers with a response and
  the new state, or raises what \<open>get_user_rank\<close> raises. (The per-user rate limit of the
  decorator is outside the model.)\<close>

definition post :: "state \<Rightarrow> nat \<Rightarrow> nat \<Rightarrow> rat \<Rightarrow> error + (response \<times> state)" where
  "post st request_user game_id score_value =
     (if \<not> is_valid st game_id score_value then Inr (HTTP_400_BAD_REQUEST, st)
      else case games st game_id of
        None \<Rightarrow> Inr (HTTP_404_NOT_FOUND, st)
      | Some g \<Rightarrow>
          let score_obj = \<lparr>user = request_user, game = game_id, Score.score = score_value\<rparr>;
              st1 = save st score_obj g
          in (case get_user_rank st1 game_id request_user of
                Inl e \<Rightarrow> Inl e
              | Inr info \<Rightarrow>
                  let previous_best = get_user_best_score st1 request_user game_id g;
                      is_pb = (case previous_best of
                                 Some pb \<Rightarrow>
                                   if score_type g = ''highest''
                                   then score_value > Score.score pb
                                   else score_value < Score.score pb
                               | None \<Rightarrow> True)
                  in Inr (HTTP_201_CREATED
                            \<lparr>message = ''Score submitted successfully'',
                             score = score_value,
                             is_personal_best = is_pb,
                             rank = map_option rank_info.user_rank info,
                             total_players = map_option rank_info.total_players info\<rparr>,
                          st1)))"

section \<open>The specification's replay with keep-best semantics\<close>

text \<open>
  Written from the specification, for comparison with \<open>rebuild_leaderboard\<close>: the three
  scoring policies, the normalizer (\<open>sortKey = -rawScore\<close> for HighestWins,
  \<open>sortKey = rawScore\<close> otherwise; ascending sort key is better), and the index obtained
  by replaying a log of (user, raw score) submissions, oldest first, where a submission
  replaces the user's entry only when its key is better than the stored one.
\<close>

datatype policy = HighestWins | LowestWins | TimeWins

fun policy_name :: "policy \<Rightarrow> string" where
  "policy_name HighestWins = ''highest''"
| "policy_name LowestWins = ''lowest''"
| "policy_name TimeWins = ''time''"

fun spec_normalize :: "rat \<Rightarrow> policy \<Rightarrow> rat" where
  "spec_normalize raw HighestWins = - raw"
| "spec_normalize raw LowestWins = raw"
| "spec_normalize raw TimeWins = raw"

definition spec_upsert_keep_best ::
  "policy \<Rightarrow> (nat \<rightharpoonup> rat) \<Rightarrow> nat \<times> rat \<Rightarrow> (nat \<rightharpoonup> rat)" where
  "spec_upsert_keep_best p idx sub =
     (let k = spec_normalize (snd sub) p
      in case idx (fst sub) of
           None \<Rightarrow> idx(fst sub \<mapsto> k)
         | Some k0 \<Rightarrow> if k < k0 then idx(fst sub \<mapsto> k) else idx)"

definition spec_replay_keep_best :: "policy \<Rightarrow> (nat \<times> rat) list \<Rightarrow> (nat \<rightharpoonup> rat)" where
  "spec_replay_keep_best p subs = foldl (spec_upsert_keep_best p) Map.empty subs"

text \<open>The log of one game as the specification sees it: its submissions, oldest first.\<close>

definition game_log :: "state \<Rightarrow> nat \<Rightarrow> (nat \<times> rat) list" where
  "game_log st game_id =
     map (\<lambda>row. (user row, Score.score row))
       (rev (filter (\<lambda>row. game row = game_id) (scores st)))"

section \<open>Scenarios\<close>

text \<open>A deployment with a \<open>highest\<close> game 1, a \<open>time\<close> game 2 and three users, before any
  submission; \<open>submit\<close> is the state in which \<open>post\<close> leaves the system.\<close>

definition initial :: state where
  "initial =
     \<lparr>games = [1 \<mapsto> \<lparr>score_type = ''highest'', is_active = True\<rparr>,
               2 \<mapsto> \<lparr>score_type = ''time'', is_active = True\<rparr>],
      users = [1 \<mapsto> \<lparr>email = ''u1@example.com'', User.name = ''U1''\<rparr>,
               2 \<mapsto> \<lparr>email = ''u2@example.com'', User.name = ''U2''\<rparr>,
               3 \<mapsto> \<lparr>email = ''u3@example.com'', User.name = []\<rparr>],
      scores = [],
      redis = (\<lambda>key. [])\<rparr>"

definition submit :: "state \<Rightarrow> nat \<Rightarrow> nat \<Rightarrow> rat \<Rightarrow> state" where
  "submit st request_user game_id score_value =
     (case post st request_user game_id score_value of
        Inr (resp, st') \<Rightarrow> st'
      | Inl e \<Rightarrow> st)"

text \<open>Scenario A: U1 submits 100, U2 submits 250, U3 submits 90 to the \<open>highest\<close> game.\<close>

definition scenario_A :: state where
  "scenario_A = submit (submit (submit initial 1 1 100) 2 1 250) 3 1 90"

text \<open>Scenario B: U1 submits 12.50, U2 submits 9.75 to the \<open>time\<close> game.\<close>

definition scenario_B :: state where
  "scenario_B = submit (submit initial 1 2 (25 / 2)) 2 2 (39 / 4)"

text \<open>Scenario C: U1 submits 10, then 5, to the \<open>highest\<close> game.\<close>

definition scenario_C :: state where
  "scenario_C = submit (submit initial 1 1 10) 1 1 5"

text \<open>Scenario D: U1 submits 100 to the \<open>highest\<close> game and 40 to the \<open>time\<close> game.\<close>

definition scenario_D :: state where
  "scenario_D = submit (submit initial 1 1 100) 1 2 40"

text \<open>Scenario A after the account of U1 was deleted: the deletion cascades to the score
  rows of U1, and the member stays in Redis.\<close>

definition scenario_A_without_U1 :: state where
  "scenario_A_without_U1 =
     scenario_A\<lparr>users := (users scenario_A)(1 := None),
                scores := filter (\<lambda>row. user row \<noteq> 1) (scores scenario_A)\<rparr>"

section \<open>Auxiliary notions\<close>

text \<open>The best value after a sequence of scores, folded from left to right with \<open>f\<close>
  (\<open>max\<close> or \<open>min\<close>) from an optional starting value; used to describe both the
  dictionary \<open>user_scores\<close> of the rebuild and the specification's replay.\<close>

fun running_best :: "(rat \<Rightarrow> rat \<Rightarrow> rat) \<Rightarrow> rat option \<Rightarrow> rat list \<Rightarrow> rat option" where
  "running_best f acc [] = acc"
| "running_best f acc (x # xs) =
     running_best f (Some (case acc of None \<Rightarrow> x | Some a \<Rightarrow> f a x)) xs"

section \<open>Properties\<close>

text \<open>
  C7. Converting a score to its Redis sort key and back returns the score itself, for every
  score type (in particular \<open>highest\<close>, \<open>lowest\<close> and \<open>time\<close>) and every score (in
  particular the non-negative ones with two decimal places).
\<close>

theorem convert_score_round_trip:
  "convert_score_from_redis (convert_score_for_redis x t) t = x"
  by (simp add: convert_score_from_redis_def convert_score_for_redis_def)

subsection \<open>Keys, sorted-set updates and the rebuild loops\<close>

lemma digit_char_neq_g: "d < 10 \<Longrightarrow> CHR ''g'' \<noteq> digit_char d"
proof -
  assume "d < 10"
  then have "d \<in> {0, 1, 2, 3, 4, 5, 6, 7, 8, 9}" by auto
  then show ?thesis by (auto simp: digit_char_def)
qed

lemma str_no_g: "CHR ''g'' \<notin> set (str n)"
proof (induction n rule: str.induct)
  case (1 n)
  show ?case
  proof (cases "n < 10")
    case True
    then show ?thesis by (simp add: str.simps [of n] digit_char_neq_g)
  next
    case False
    have "n mod 10 < 10" by simp
    with False 1 show ?thesis by (simp add: str.simps [of n] digit_char_neq_g)
  qed
qed

lemma game_key_neq_global_key: "get_leaderboard_key game_id \<noteq> get_global_leaderboard_key"
proof
  assume "get_leaderboard_key game_id = get_global_leaderboard_key"
  then have "str game_id = ''global''"
    by (simp add: get_leaderboard_key_def get_global_leaderboard_key_def)
  then have "CHR ''g'' \<in> set (str game_id)" by simp
  then show False by (simp add: str_no_g)
qed

text \<open>The second loop of \<open>rebuild_leaderboard\<close>: what it leaves in Redis.\<close>

lemma fold_update_user_score:
  "fold (\<lambda>(uid, sc) s. update_user_score s game_id uid sc t) us st =
     st\<lparr>redis := (redis st)
        (get_leaderboard_key game_id :=
           fold (\<lambda>(uid, sc). zadd uid (convert_score_for_redis sc t)) us
             (redis st (get_leaderboard_key game_id)),
         get_global_leaderboard_key :=
           fold (\<lambda>(uid, sc). zadd uid sc) us (redis st get_global_leaderboard_key))\<rparr>"
proof (induction us arbitrary: st)
  case Nil
  show ?case by simp
next
  case (Cons a us)
  obtain uid sc where a: "a = (uid, sc)" by (cases a)
  let ?st1 = "update_user_score st game_id uid sc t"
  have neq: "get_leaderboard_key game_id \<noteq> get_global_leaderboard_key"
    by (rule game_key_neq_global_key)
  have step: "fold (\<lambda>(uid, sc) s. update_user_score s game_id uid sc t) (a # us) st =
      fold (\<lambda>(uid, sc) s. update_user_score s game_id uid sc t) us ?st1"
    by (simp add: a)
  have r1: "redis ?st1 = (redis st)
      (get_leaderboard_key game_id :=
         zadd uid (convert_score_for_redis sc t) (redis st (get_leaderboard_key game_id)),
       get_global_leaderboard_key := zadd uid sc (redis st get_global_leaderboard_key))"
    using neq by (simp add: update_user_score_def Let_def)
  have r2: "?st1\<lparr>redis := r\<rparr> = st\<lparr>redis := r\<rparr>" for r
    by (simp add: update_user_score_def Let_def)
  have r3: "(redis ?st1)
      (get_leaderboard_key game_id :=
         fold (\<lambda>(uid, sc). zadd uid (convert_score_for_redis sc t)) us
           (redis ?st1 (get_leaderboard_key game_id)),
       get_global_leaderboard_key :=
         fold (\<lambda>(uid, sc). zadd uid sc) us (redis ?st1 get_global_leaderboard_key)) =
    (redis st)
      (get_leaderboard_key game_id :=
         fold (\<lambda>(uid, sc). zadd uid (convert_score_for_redis sc t)) (a # us)
           (redis st (get_leaderboard_key game_id)),
       get_global_leaderboard_key :=
         fold (\<lambda>(uid, sc). zadd uid sc) (a # us) (redis st get_global_leaderboard_key))"
    using neq by (auto simp: r1 a fun_eq_iff)
  show ?case
    unfolding step Cons.IH [of ?st1] r2 r3 ..
qed


lemma map_of_zadd: "map_of (zadd u s zs) = (map_of zs)(u \<mapsto> s)"
  by (simp add: zadd_def update_conv')

lemma zadd_triv: "map_of zs u = Some s \<Longrightarrow> zadd u s zs = zs"
  by (simp add: zadd_def update_triv)

lemma distinct_zadd: "distinct (map fst zs) \<Longrightarrow> distinct (map fst (zadd u s zs))"
  by (simp add: zadd_def distinct_update)

lemma fold_zadd_other:
  "u \<notin> fst ` set us \<Longrightarrow>
   map_of (fold (\<lambda>(uid, sc). zadd uid (f sc)) us zs) u = map_of zs u"
  by (induction us arbitrary: zs) (auto simp: map_of_zadd)

lemma fold_zadd_lookup:
  "distinct (map fst us) \<Longrightarrow> (u, sc) \<in> set us \<Longrightarrow>
   map_of (fold (\<lambda>(uid, sc). zadd uid (f sc)) us zs) u = Some (f sc)"
proof (induction us arbitrary: zs)
  case Nil
  then show ?case by simp
next
  case (Cons a us)
  show ?case
  proof (cases "a = (u, sc)")
    case True
    with Cons.prems have "u \<notin> fst ` set us" by auto
    then show ?thesis
      by (simp add: True fold_zadd_other map_of_zadd)
  next
    case False
    with Cons.prems have "(u, sc) \<in> set us" "distinct (map fst us)" by auto
    then show ?thesis by (simp add: Cons.IH)
  qed
qed

lemma fold_zadd_triv:
  "(\<And>u sc. (u, sc) \<in> set us \<Longrightarrow> map_of zs u = Some (f sc)) \<Longrightarrow>
   fold (\<lambda>(uid, sc). zadd uid (f sc)) us zs = zs"
proof (induction us)
  case Nil
  show ?case by simp
next
  case (Cons a us)
  obtain u sc where a: "a = (u, sc)" by (cases a)
  have "zadd u (f sc) zs = zs"
    using Cons.prems [of u sc] by (simp add: a zadd_triv)
  moreover have "fold (\<lambda>(uid, sc). zadd uid (f sc)) us zs = zs"
    using Cons.prems by (intro Cons.IH) simp
  ultimately show ?case by (simp add: a)
qed

lemma fold_zadd_idem:
  assumes "distinct (map fst us)"
  shows "fold (\<lambda>(uid, sc). zadd uid (f sc)) us (fold (\<lambda>(uid, sc). zadd uid (f sc)) us zs) =
         fold (\<lambda>(uid, sc). zadd uid (f sc)) us zs"
  using assms by (intro fold_zadd_triv) (rule fold_zadd_lookup)

lemma distinct_keep_best:
  "distinct (map fst acc) \<Longrightarrow> distinct (map fst (keep_best t row acc))"
  by (simp add: keep_best_def Let_def distinct_update split: option.split)

lemma distinct_user_scores:
  "distinct (map fst acc) \<Longrightarrow> distinct (map fst (fold (keep_best t) rows acc))"
  by (induction rows arbitrary: acc) (simp_all add: distinct_keep_best)

lemma rebuild_leaderboard_known_game:
  assumes "games st game_id = Some g"
  shows "rebuild_leaderboard st game_id =
     st\<lparr>redis := (redis st)
        (get_leaderboard_key game_id :=
           fold (\<lambda>(uid, sc). zadd uid (convert_score_for_redis sc (score_type g)))
             (fold (keep_best (score_type g))
                (filter (\<lambda>row. game row = game_id) (scores st)) []) [],
         get_global_leaderboard_key :=
           fold (\<lambda>(uid, sc). zadd uid sc)
             (fold (keep_best (score_type g))
                (filter (\<lambda>row. game row = game_id) (scores st)) [])
             (redis st get_global_leaderboard_key))\<rparr>"
  using assms game_key_neq_global_key [of game_id]
  by (simp add: rebuild_leaderboard_def Let_def fold_update_user_score clear_leaderboard_def)

text \<open>
  C8. Rebuilding a game's leaderboard twice in a row leaves the whole state (the Redis
  keyspace and the database tables) exactly as rebuilding it once does, for every state and
  every game id.
\<close>

theorem rebuild_leaderboard_idempotent:
  "rebuild_leaderboard (rebuild_leaderboard st game_id) game_id = rebuild_leaderboard st game_id"
proof (cases "games st game_id")
  case None
  then show ?thesis by (simp add: rebuild_leaderboard_def)
next
  case (Some g)
  let ?us = "fold (keep_best (score_type g)) (filter (\<lambda>row. game row = game_id) (scores st)) []"
  let ?st1 = "rebuild_leaderboard st game_id"
  have d: "distinct (map fst ?us)" by (rule distinct_user_scores) simp
  have st1: "?st1 = st\<lparr>redis := (redis st)
        (get_leaderboard_key game_id :=
           fold (\<lambda>(uid, sc). zadd uid (convert_score_for_redis sc (score_type g))) ?us [],
         get_global_leaderboard_key :=
           fold (\<lambda>(uid, sc). zadd uid sc) ?us (redis st get_global_leaderboard_key))\<rparr>"
    by (rule rebuild_leaderboard_known_game [OF Some])
  have g1: "games ?st1 game_id = Some g" and s1: "scores ?st1 = scores st"
    by (simp_all add: st1 Some)
  have idem: "fold (\<lambda>(uid, sc). zadd uid sc) ?us
        (fold (\<lambda>(uid, sc). zadd uid sc) ?us (redis st get_global_leaderboard_key)) =
      fold (\<lambda>(uid, sc). zadd uid sc) ?us (redis st get_global_leaderboard_key)"
    using fold_zadd_idem [OF d, of "\<lambda>x. x"] by simp
  show ?thesis
    unfolding rebuild_leaderboard_known_game [OF g1] s1
    by (simp add: st1 idem)
qed

subsection \<open>Rebuild against the keep-best replay\<close>

lemma keep_best_lookup:
  "map_of (keep_best t row acc) u =
     (if user row = u
      then Some (case map_of acc u of
                   None \<Rightarrow> Score.score row
                 | Some old \<Rightarrow> (if t = ''highest'' then max else min) old (Score.score row))
      else map_of acc u)"
  by (simp add: keep_best_def Let_def update_conv' split: option.split)

lemma user_scores_lookup:
  "map_of (fold (keep_best t) rows acc) u =
     running_best (if t = ''highest'' then max else min) (map_of acc u)
       (map Score.score (filter (\<lambda>row. user row = u) rows))"
proof (induction rows arbitrary: acc)
  case Nil
  show ?case by simp
next
  case (Cons row rows)
  have "map_of (fold (keep_best t) (row # rows) acc) u =
      running_best (if t = ''highest'' then max else min) (map_of (keep_best t row acc) u)
        (map Score.score (filter (\<lambda>row. user row = u) rows))"
    by (simp only: fold.simps comp_apply Cons.IH)
  then show ?case
    by (simp add: keep_best_lookup)
qed

lemma spec_upsert_lookup:
  "spec_upsert_keep_best p idx sub u =
     (if fst sub = u
      then Some (case idx u of
                   None \<Rightarrow> spec_normalize (snd sub) p
                 | Some k0 \<Rightarrow> min k0 (spec_normalize (snd sub) p))
      else idx u)"
  by (auto simp: spec_upsert_keep_best_def Let_def min_def split: option.split)

lemma spec_replay_lookup:
  "foldl (spec_upsert_keep_best p) idx subs u =
     running_best min (idx u)
       (map (\<lambda>sub. spec_normalize (snd sub) p) (filter (\<lambda>sub. fst sub = u) subs))"
proof (induction subs arbitrary: idx)
  case Nil
  show ?case by simp
next
  case (Cons sub subs)
  have step: "foldl (spec_upsert_keep_best p) idx (sub # subs) u =
      running_best min (spec_upsert_keep_best p idx sub u)
        (map (\<lambda>sub. spec_normalize (snd sub) p) (filter (\<lambda>sub. fst sub = u) subs))"
    by (simp only: foldl.simps Cons.IH)
  show ?case
    unfolding step by (simp add: spec_upsert_lookup)
qed

lemma running_best_max_Some: "running_best max (Some a) xs = Some (Max (set (a # xs)))"
proof (induction xs arbitrary: a)
  case Nil
  show ?case by simp
next
  case (Cons x xs)
  have "Max (insert (max a x) (set xs)) = Max (insert a (insert x (set xs)))"
    by (cases "xs = []") (simp_all add: max.assoc)
  then show ?case by (simp add: Cons.IH)
qed

lemma running_best_min_Some: "running_best min (Some a) xs = Some (Min (set (a # xs)))"
proof (induction xs arbitrary: a)
  case Nil
  show ?case by simp
next
  case (Cons x xs)
  have "Min (insert (min a x) (set xs)) = Min (insert a (insert x (set xs)))"
    by (cases "xs = []") (simp_all add: min.assoc)
  then show ?case by (simp add: Cons.IH)
qed

lemma running_best_max_None:
  "running_best max None xs = (if xs = [] then None else Some (Max (set xs)))"
  by (cases xs) (simp_all add: running_best_max_Some)

lemma running_best_min_None:
  "running_best min None xs = (if xs = [] then None else Some (Min (set xs)))"
  by (cases xs) (simp_all add: running_best_min_Some)

lemma Min_uminus_image:
  fixes A :: "rat set"
  assumes "finite A" and "A \<noteq> {}"
  shows "Min (uminus ` A) = - Max A"
proof (rule Min_eqI)
  show "finite (uminus ` A)" using assms by simp
  show "- Max A \<in> uminus ` A" using assms by simp
  show "\<And>y. y \<in> uminus ` A \<Longrightarrow> - Max A \<le> y" using assms by auto
qed

lemma game_log_filter:
  "map (\<lambda>sub. spec_normalize (snd sub) p) (filter (\<lambda>sub. fst sub = u) (game_log st game_id)) =
   map (\<lambda>x. spec_normalize x p)
     (rev (map Score.score
        (filter (\<lambda>row. user row = u) (filter (\<lambda>row. game row = game_id) (scores st)))))"
  by (simp add: game_log_def filter_map comp_def rev_map rev_filter)

lemma best_key_agrees:
  "map_option (\<lambda>sc. convert_score_for_redis sc (policy_name p))
     (running_best (if policy_name p = ''highest'' then max else min) None xs) =
   running_best min None (map (\<lambda>x. spec_normalize x p) (rev xs))"
proof (cases "xs = []")
  case True
  then show ?thesis by simp
next
  case False
  then have ne: "set xs \<noteq> {}" by simp
  show ?thesis
  proof (cases p)
    case HighestWins
    have "Min (uminus ` set xs) = - Max (set xs)"
      by (rule Min_uminus_image [OF finite_set ne])
    then show ?thesis
      using False
      by (simp add: HighestWins running_best_max_None running_best_min_None
          convert_score_for_redis_def)
  next
    case LowestWins
    then show ?thesis
      using False by (simp add: running_best_min_None convert_score_for_redis_def)
  next
    case TimeWins
    then show ?thesis
      using False by (simp add: running_best_min_None convert_score_for_redis_def)
  qed
qed

text \<open>
  C6. For an existing game whose score type is one of the three policies, the per-game index
  that \<open>rebuild_leaderboard\<close> leaves maps every user to exactly the key that the
  specification's keep-best replay of the game's log gives (so the member sets agree too),
  and holds each member once; the index held before the rebuild has no influence. In
  scenario C the live entry of U1 is the key of 5, and the rebuilt entry is the key of 10.
\<close>

theorem rebuild_leaderboard_keeps_best:
  assumes g: "games st game_id = Some g" and p: "score_type g = policy_name p"
  shows "zscore (redis (rebuild_leaderboard st game_id) (get_leaderboard_key game_id)) =
           spec_replay_keep_best p (game_log st game_id)
         \<and> distinct (map fst (redis (rebuild_leaderboard st game_id) (get_leaderboard_key game_id)))"
proof
  let ?t = "policy_name p"
  let ?rows = "filter (\<lambda>row. game row = game_id) (scores st)"
  let ?us = "fold (keep_best ?t) ?rows []"
  let ?zs = "fold (\<lambda>(uid, sc). zadd uid (convert_score_for_redis sc ?t)) ?us []"
  have neq: "get_leaderboard_key game_id \<noteq> get_global_leaderboard_key"
    by (rule game_key_neq_global_key)
  have zs: "redis (rebuild_leaderboard st game_id) (get_leaderboard_key game_id) = ?zs"
    using neq by (simp add: rebuild_leaderboard_known_game [OF g] p)
  have d: "distinct (map fst ?us)" by (rule distinct_user_scores) simp
  have look: "map_of ?zs u = map_option (\<lambda>sc. convert_score_for_redis sc ?t) (map_of ?us u)" for u
  proof (cases "map_of ?us u")
    case None
    then have "u \<notin> fst ` set ?us" by (simp add: map_of_eq_None_iff)
    then show ?thesis by (simp add: None fold_zadd_other)
  next
    case (Some sc)
    then have "(u, sc) \<in> set ?us" by (rule map_of_SomeD)
    with d show ?thesis by (simp add: Some fold_zadd_lookup)
  qed
  show "zscore (redis (rebuild_leaderboard st game_id) (get_leaderboard_key game_id)) =
          spec_replay_keep_best p (game_log st game_id)"
  proof
    fix u
    let ?xs = "map Score.score (filter (\<lambda>row. user row = u) ?rows)"
    have code: "map_of ?us u = running_best (if ?t = ''highest'' then max else min) None ?xs"
      by (simp add: user_scores_lookup)
    have spec: "spec_replay_keep_best p (game_log st game_id) u =
        running_best min None (map (\<lambda>x. spec_normalize x p) (rev ?xs))"
      by (simp only: spec_replay_keep_best_def spec_replay_lookup game_log_filter)
    show "zscore (redis (rebuild_leaderboard st game_id) (get_leaderboard_key game_id)) u =
        spec_replay_keep_best p (game_log st game_id) u"
      unfolding zscore_def zs look code spec by (rule best_key_agrees)
  qed
  show "distinct (map fst (redis (rebuild_leaderboard st game_id) (get_leaderboard_key game_id)))"
    unfolding zs
  proof -
    have "distinct (map fst (fold (\<lambda>(uid, sc). zadd uid (f sc)) us zs))"
      if "distinct (map fst zs)" for f :: "rat \<Rightarrow> rat" and us zs
      using that by (induction us arbitrary: zs) (auto simp: distinct_zadd)
    then show "distinct (map fst ?zs)" by simp
  qed
qed

theorem rebuild_leaderboard_keeps_best_witness:
  "games scenario_C 1 = Some \<lparr>score_type = ''highest'', is_active = True\<rparr>
   \<and> zscore (redis scenario_C (get_leaderboard_key 1)) 1 = Some (- 5)
   \<and> zscore (redis (rebuild_leaderboard scenario_C 1) (get_leaderboard_key 1)) 1 = Some (- 10)
   \<and> convert_score_from_redis (- 10) ''highest'' = 10"
proof -
  have g: "games scenario_C 1 = Some \<lparr>score_type = ''highest'', is_active = True\<rparr>"
    by code_simp
  have p: "score_type \<lparr>score_type = ''highest'', is_active = True\<rparr> = policy_name HighestWins"
    by simp
  have live: "zscore (redis scenario_C (get_leaderboard_key 1)) 1 = Some (- 5)"
    by code_simp
  have replay: "spec_replay_keep_best HighestWins (game_log scenario_C 1) 1 = Some (- 10)"
    by code_simp
  have denorm: "convert_score_from_redis (- 10) ''highest'' = 10"
    by code_simp
  from rebuild_leaderboard_keeps_best [OF g p] g live replay denorm show ?thesis
    by simp
qed

subsection \<open>Ranks of a page\<close>

lemma build_leaderboard_enumerate:
  "map (\<lambda>r. (leaderboard_row.rank r, leaderboard_row.user_id r, leaderboard_row.score r))
     (build_leaderboard user_dict t (base + int n) ranked) =
   map (\<lambda>(i, uid, redis_score). (base + int i, uid, convert_score_from_redis redis_score t))
     (filter (\<lambda>(i, uid, redis_score). user_dict uid \<noteq> None) (enumerate n ranked))"
proof (induction ranked arbitrary: n)
  case Nil
  show ?case by simp
next
  case (Cons a ranked)
  obtain uid redis_score where a: "a = (uid, redis_score)" by (cases a)
  have next_rank: "base + int n + 1 = base + int (Suc n)" by simp
  show ?case
    by (cases "user_dict uid") (simp_all add: a next_rank Cons.IH del: of_nat_Suc)
qed

lemma restrict_to_ranked:
  "filter (\<lambda>(i, uid, redis_score). (users st |` set (map fst ranked)) uid \<noteq> None)
     (enumerate 0 ranked) =
   filter (\<lambda>(i, uid, redis_score). users st uid \<noteq> None) (enumerate 0 ranked)"
proof (rule filter_cong [OF refl])
  fix x
  assume x: "x \<in> set (enumerate 0 ranked)"
  obtain i uid redis_score where xe: "x = (i, uid, redis_score)" by (cases x) auto
  from x have i: "i < length ranked" and nth: "ranked ! i = (uid, redis_score)"
    by (simp_all add: xe in_set_enumerate_eq)
  from nth_mem [OF i] have "(uid, redis_score) \<in> set ranked"
    by (simp only: nth)
  then have "uid \<in> set (map fst ranked)" by force
  then show "(case x of (i, uid, redis_score) \<Rightarrow>
        (users st |` set (map fst ranked)) uid \<noteq> None) =
      (case x of (i, uid, redis_score) \<Rightarrow> users st uid \<noteq> None)"
    by (simp add: xe)
qed

text \<open>
  C10. For an existing game, \<open>get_leaderboard\<close> raises exactly when \<open>zrevrange\<close> does, and
  otherwise the rows of the page are the members of the raw range fetched from Redis that
  resolve to a user, in order; the rank of a row is \<open>start + 1\<close> plus the position of its
  member in the raw range, counted before unresolvable members are dropped. So a page can
  show non-consecutive ranks: with U1 removed from the user table, the page of scenario A
  shows ranks 1 and 3.
\<close>

theorem get_leaderboard_ranks:
  assumes "games st game_id = Some g"
  shows "map_sum id
           (map (\<lambda>r. (leaderboard_row.rank r, leaderboard_row.user_id r,
                       leaderboard_row.score r)))
           (get_leaderboard st game_id start end) =
         map_sum id
           (\<lambda>ranked_users.
              map (\<lambda>(i, uid, redis_score).
                     (start + 1 + int i, uid,
                      convert_score_from_redis redis_score (score_type g)))
                (filter (\<lambda>(i, uid, redis_score). users st uid \<noteq> None)
                   (enumerate 0 ranked_users)))
           (zrevrange (redis st (get_leaderboard_key game_id)) start end)"
proof (cases "zrevrange (redis st (get_leaderboard_key game_id)) start end")
  case (Inl e)
  with assms show ?thesis by (simp add: get_leaderboard_def)
next
  case (Inr ranked)
  show ?thesis
  proof (cases "ranked = []")
    case True
    with assms Inr show ?thesis by (simp add: get_leaderboard_def)
  next
    case False
    with assms Inr have "get_leaderboard st game_id start end =
        Inr (build_leaderboard (users st |` set (map fst ranked)) (score_type g)
               (start + 1 + int 0) ranked)"
      by (simp add: get_leaderboard_def Let_def)
    then show ?thesis
      by (simp only: Inr map_sum.simps id_apply build_leaderboard_enumerate restrict_to_ranked)
  qed
qed

theorem get_leaderboard_ranks_witness:
  "games scenario_A_without_U1 1 = Some \<lparr>score_type = ''highest'', is_active = True\<rparr>
   \<and> map_sum id (map fst) (zrevrange (redis scenario_A_without_U1 (get_leaderboard_key 1)) 0 2) =
       Inr [3, 1, 2]
   \<and> map_sum id
        (map (\<lambda>r. (leaderboard_row.rank r, leaderboard_row.user_id r, leaderboard_row.score r)))
        (get_leaderboard scenario_A_without_U1 1 0 2) = Inr [(1, 3, 90), (3, 2, 250)]"
proof -
  have g: "games scenario_A_without_U1 1 = Some \<lparr>score_type = ''highest'', is_active = True\<rparr>"
    by code_simp
  have ranked: "map_sum id (map fst)
      (zrevrange (redis scenario_A_without_U1 (get_leaderboard_key 1)) 0 2) = Inr [3, 1, 2]"
    by code_simp
  have rows: "map_sum id
           (\<lambda>ranked_users.
              map (\<lambda>(i, uid, redis_score).
                     (0 + 1 + int i, uid,
                      convert_score_from_redis redis_score
                        (score_type \<lparr>score_type = ''highest'', is_active = True\<rparr>)))
                (filter (\<lambda>(i, uid, redis_score). users scenario_A_without_U1 uid \<noteq> None)
                   (enumerate 0 ranked_users)))
           (zrevrange (redis scenario_A_without_U1 (get_leaderboard_key 1)) 0 2) =
          Inr [(1, 3, 90), (3, 2, 250)]"
    by code_simp
  from get_leaderboard_ranks [OF g, of 0 2] g ranked rows show ?thesis
    by (simp only: simp_thms)
qed


subsection \<open>Empty and absent results\<close>












subsection \<open>The scenarios, evaluated\<close>

text \<open>
  C1. In scenario A, \<open>get_leaderboard(G, 0, 2)\<close> returns U3 (90), U1 (100), U2 (250) with
  ranks 1, 2, 3, not U2, U1, U3: \<open>update_user_score\<close> stores the negated score of a
  \<open>highest\<close> game, a key meant for an ascending read, and \<open>get_leaderboard\<close> reads the
  set with \<open>zrevrange\<close>, in descending order. Rank 1 holds the minimum raw score.
\<close>

theorem scenario_A_leaderboard:
  "map_sum id
     (map (\<lambda>r. (leaderboard_row.rank r, leaderboard_row.user_id r, leaderboard_row.score r)))
     (get_leaderboard scenario_A 1 0 2) = Inr [(1, 3, 90), (2, 1, 100), (3, 2, 250)]"
  by code_simp

text \<open>
  C2. In scenario D, U1 has submitted 100 and 40; the global leaderboard and
  \<open>get_user_global_rank\<close> show 40 for U1, the score submitted last, not the sum 140:
  \<open>update_user_score\<close> sets the global entry with \<open>zadd\<close>, which overwrites.
\<close>

theorem scenario_D_global_score:
  "map_sum id
     (map (\<lambda>r. (global_row.rank r, global_row.user_id r, global_row.total_score r)))
     (get_global_leaderboard scenario_D 0 99) = Inr [(1, 1, 40)]
   \<and> get_user_global_rank scenario_D 1 =
       Some \<lparr>global_rank_info.user_rank = 1, total_score = Some 40, total_players = 1\<rparr>"
  by code_simp

text \<open>
  C3. The first submission of U1 to game 1 is answered with \<open>is_personal_best = False\<close>:
  the view queries the best score after the new row was created, so the row is compared
  with a best that already includes it. The lemma \<open>post_never_personal_best\<close> below shows
  that the flag is false for every accepted submission.
\<close>

theorem first_submission_not_personal_best:
  "map_sum id fst (post initial 1 1 100) =
     Inr (HTTP_201_CREATED
            \<lparr>message = ''Score submitted successfully'', score = 100,
             is_personal_best = False, rank = Some 1, total_players = Some 1\<rparr>)"
  by code_simp

text \<open>
  C4. In scenario B, \<open>get_user_rank(G, U1)\<close> reports rank 1 for U1 (12.50), of 2 players,
  not rank 2: \<open>zrevrank\<close> counts from the highest key, and the key of a \<open>time\<close> game is
  the raw time, so the slower time ranks first.
\<close>

theorem scenario_B_user_rank:
  "map_sum id (map_option (\<lambda>info. (rank_info.user_rank info, rank_info.user_score info,
       rank_info.total_players info))) (get_user_rank scenario_B 2 1) =
     Inr (Some (1, Some (25 / 2), 2))"
  by code_simp

text \<open>
  C5. In scenario C the global entry of U1 is 5 before \<open>rebuild_leaderboard\<close> and 10
  after it: the rebuild writes through \<open>update_user_score\<close>, which also sets the user's
  entry of the global key (in general: lemma \<open>rebuild_leaderboard_global_entries\<close> below).
\<close>

theorem rebuild_overwrites_global_entry:
  "zscore (redis scenario_C get_global_leaderboard_key) 1 = Some 5
   \<and> zscore (redis (rebuild_leaderboard scenario_C 1) get_global_leaderboard_key) 1 = Some 10"
  by code_simp

subsection \<open>The personal-best flag of a submission\<close>

lemma first_sort_key_le:
  assumes "first (sort_key f xs) = Some y" and "x \<in> set xs"
  shows "f y \<le> f x"
proof -
  from assms(1) obtain ys where ys: "sort_key f xs = y # ys"
    by (auto simp: first_def split: list.splits)
  have "sorted (map f (sort_key f xs))" by (rule sorted_sort_key)
  then have "\<forall>z \<in> set ys. f y \<le> f z" by (simp add: ys)
  moreover have "x \<in> set (y # ys)" using assms(2) ys set_sort [of f xs] by simp
  ultimately show ?thesis by auto
qed

lemma first_sort_key_None:
  assumes "first (sort_key f xs) = None"
  shows "xs = []"
proof -
  from assms have "sort_key f xs = []"
    by (simp add: first_def split: list.splits)
  then have "length xs = 0"
    using length_sort [of f xs] by simp
  then show ?thesis by simp
qed

lemma post_never_personal_best:
  assumes "post st request_user game_id score_value = Inr (HTTP_201_CREATED data, st')"
  shows "\<not> is_personal_best data"
proof -
  from assms have valid: "is_valid st game_id score_value"
    by (auto simp: post_def split: if_splits)
  then obtain g where g: "games st game_id = Some g"
    by (auto simp: is_valid_def split: option.splits)
  let ?new = "\<lparr>user = request_user, game = game_id, Score.score = score_value\<rparr>"
  let ?st1 = "save st ?new g"
  let ?rows = "filter (\<lambda>row. user row = request_user \<and> game row = game_id) (scores ?st1)"
  have new: "?new \<in> set ?rows"
    by (simp add: save_def update_redis_leaderboard_def update_user_score_def Let_def)
  show ?thesis
  proof (cases "score_type g = ''highest''")
    case True
    let ?key = "\<lambda>row. - Score.score row"
    have pb: "get_user_best_score ?st1 request_user game_id g =
        first (sort_key (\<lambda>row. - Score.score row) ?rows)"
      by (simp add: get_user_best_score_def True)
    show ?thesis
    proof (cases "get_user_best_score ?st1 request_user game_id g")
      case None
      with pb have "first (sort_key ?key ?rows) = None" by simp
      then have "?rows = []" by (rule first_sort_key_None)
      with new show ?thesis by simp
    next
      case (Some best)
      with pb have "first (sort_key ?key ?rows) = Some best" by simp
      from first_sort_key_le [OF this new]
      have "- Score.score best \<le> - Score.score ?new" .
      with assms valid g True Some show ?thesis
        by (auto simp: post_def Let_def split: sum.splits)
    qed
  next
    case False
    let ?key = "Score.score"
    have pb: "get_user_best_score ?st1 request_user game_id g =
        first (sort_key Score.score ?rows)"
      by (simp add: get_user_best_score_def False)
    show ?thesis
    proof (cases "get_user_best_score ?st1 request_user game_id g")
      case None
      with pb have "first (sort_key ?key ?rows) = None" by simp
      then have "?rows = []" by (rule first_sort_key_None)
      with new show ?thesis by simp
    next
      case (Some best)
      with pb have "first (sort_key ?key ?rows) = Some best" by simp
      from first_sort_key_le [OF this new]
      have "Score.score best \<le> Score.score ?new" .
      with assms valid g False Some show ?thesis
        by (auto simp: post_def Let_def split: sum.splits)
    qed
  qed
qed

subsection \<open>What a rebuild writes to the global key\<close>

text \<open>For an existing game, the rebuild sets the global entry of every user with a score
  row of the game to that user's best score of the game, and keeps every other global
  entry.\<close>

lemma rebuild_leaderboard_global_entries:
  assumes g: "games st game_id = Some g"
  shows "zscore (redis (rebuild_leaderboard st game_id) get_global_leaderboard_key) u =
     (case map_of (fold (keep_best (score_type g))
                     (filter (\<lambda>row. game row = game_id) (scores st)) []) u of
        Some best \<Rightarrow> Some best
      | None \<Rightarrow> zscore (redis st get_global_leaderboard_key) u)"
proof -
  let ?us = "fold (keep_best (score_type g)) (filter (\<lambda>row. game row = game_id) (scores st)) []"
  have d: "distinct (map fst ?us)" by (rule distinct_user_scores) simp
  have r: "redis (rebuild_leaderboard st game_id) get_global_leaderboard_key =
      fold (\<lambda>(uid, sc). zadd uid sc) ?us (redis st get_global_leaderboard_key)"
    by (simp add: rebuild_leaderboard_known_game [OF g])
  show ?thesis
  proof (cases "map_of ?us u")
    case None
    then have "u \<notin> fst ` set ?us" by (simp add: map_of_eq_None_iff)
    from fold_zadd_other [OF this, of "\<lambda>x. x"] show ?thesis
      by (simp add: None r zscore_def)
  next
    case (Some best)
    then have "(u, best) \<in> set ?us" by (rule map_of_SomeD)
    from fold_zadd_lookup [OF d this, of "\<lambda>x. x"] show ?thesis
      by (simp add: Some r zscore_def)
  qed
qed

end
